theory Spec2Isabelle
  imports Main "HOL-Library.Word" "HOL-Library.Signed_Division" "HOL-Library.AList"
begin

section \<open>The IPSEC packet forwarder of \<open>ipsec/forward.go\<close>\<close>

text \<open>
  The forwarder is a set of goroutines over one shared \<open>Forwarder\<close>: the ingress loop
  \<open>run\<close>, one \<open>handle\<close> per datagram, the \<open>janitor\<close>, and the caller of \<open>Close\<close>.
  The model is a small-step machine. A step of a goroutine is a statement of the source,
  or a few consecutive ones, that touches shared state (the \<open>sync.Map\<close>, a
  \<open>connection\<close> object, a socket, a callback); each program point names its lines. A
  schedule is a list of steps, and a sequential execution is a schedule that runs one
  goroutine only. What the network answers (a dial or a read succeeds or fails) is part
  of the scheduled step; the clock stands still within a step. Log lines are left out.
\<close>

subsection \<open>Data\<close>

type_synonym byte = "8 word"
type_synonym payload = "byte list"

text \<open>\<open>time.Duration\<close> is an \<open>int64\<close> of nanoseconds; a \<open>time.Time\<close> is an instant, in
  nanoseconds.\<close>

type_synonym duration = "64 word"
type_synonym time = int

text \<open>Sockets (\<open>*net.UDPConn\<close>) and \<open>*connection\<close> objects are references: a socket is
  its number in creation order, a connection its index in the heap \<open>conns\<close>. Objects are
  allocated at the end of the heap and never freed, so a reference held by the table or
  by a handler is the index of an allocated object.\<close>

type_synonym sock = nat
type_synonym cid = nat

record udpaddr =
  IP :: "byte list"
  Port :: int

record connection =
  available :: bool         \<comment> \<open>the channel \<open>available\<close>: \<open>True\<close> once it is closed\<close>
  rConn :: "sock option"    \<comment> \<open>\<open>None\<close> is the nil \<open>*net.UDPConn\<close>\<close>
  lastActive :: time

datatype error = ResolveError string | ListenError

text \<open>What a goroutine does to the outside, in the order it happens.\<close>

datatype event =
    EDial string bool "sock option"
      \<comment> \<open>\<open>net.DialUDP\<close> for a client: bound to \<open>127.0.0.1:\<close> or not, and the socket it gave\<close>
  | EGateOpen cid                  \<comment> \<open>\<open>close(client.available)\<close>\<close>
  | EConnect string                \<comment> \<open>\<open>connectCallback\<close>\<close>
  | EDisconnect string             \<comment> \<open>\<open>disconnectCallback\<close>\<close>
  | EUpWrite sock payload          \<comment> \<open>a datagram written to an upstream socket\<close>
  | EDownWrite string payload      \<comment> \<open>a datagram written back to a client\<close>
  | ESockClose sock
  | ESleep duration                \<comment> \<open>\<open>time.Sleep\<close>\<close>

text \<open>The outcome of the one system call a step makes.\<close>

datatype io = IoOk payload | IoErr

text \<open>Where a \<open>handle\<close> goroutine stands, with the locals that are live there.\<close>

datatype hpc =
    H_Load                 \<comment> \<open>line 110\<close>
  | H_Store cid            \<comment> \<open>line 117\<close>
  | H_Dial cid             \<comment> \<open>lines 124--130\<close>
  | H_DialFailed           \<comment> \<open>lines 132--134\<close>
  | H_Establish cid sock   \<comment> \<open>lines 137--139\<close>
  | H_Connect cid          \<comment> \<open>line 141\<close>
  | H_First cid            \<comment> \<open>line 143\<close>
  | H_Read cid             \<comment> \<open>line 152\<close>
  | H_ReadFailed cid       \<comment> \<open>lines 154--158\<close>
  | H_Reply cid payload    \<comment> \<open>line 162\<close>
  | H_Wait cid             \<comment> \<open>line 171\<close>
  | H_Forward cid          \<comment> \<open>line 174\<close>
  | H_Refresh              \<comment> \<open>lines 179--185\<close>
  | H_Done

record handler =
  pc :: hpc
  data :: payload
  cliAddr :: string        \<comment> \<open>\<open>addr.String()\<close>, also the address replies are sent to\<close>

text \<open>Where the \<open>janitor\<close> goroutine stands.\<close>

datatype jpc =
    J_Check                \<comment> \<open>line 84, the loop test\<close>
  | J_Sleep time           \<comment> \<open>line 85, asleep until the instant given\<close>
  | J_Evict "string list"  \<comment> \<open>lines 96--100, with \<open>keysToDelete\<close>\<close>
  | J_Notify "string list" \<comment> \<open>lines 102--104\<close>
  | J_Done

text \<open>The \<open>Forwarder\<close> (the first five fields) and the process around it.\<close>

record state =
  raddr :: udpaddr
  listenerConn :: sock
  clients :: "(string \<times> cid) list"   \<comment> \<open>the \<open>sync.Map\<close>, in the order \<open>Range\<close> visits it\<close>
  timeout :: duration
  closed :: bool
  conns :: "connection list"           \<comment> \<open>the heap of \<open>connection\<close> objects\<close>
  handlers :: "handler list"           \<comment> \<open>the \<open>handle\<close> goroutines\<close>
  janitor :: jpc
  ingress :: bool                      \<comment> \<open>the \<open>run\<close> loop is alive\<close>
  now :: time                          \<comment> \<open>what \<open>time.Now()\<close> returns\<close>
  nsocks :: nat                        \<comment> \<open>sockets created so far\<close>
  closed_socks :: "sock list"
  events :: "event list"
  crashed :: bool                      \<comment> \<open>a goroutine panicked: the process is gone\<close>

subsection \<open>Library operations\<close>

text \<open>\<open>Time.Add\<close> and \<open>Time.Before\<close>.\<close>

definition time_add :: "time \<Rightarrow> duration \<Rightarrow> time" where
  "time_add t d = t + sint d"

text \<open>Go's \<open>/\<close> on \<open>int64\<close> truncates towards zero (and wraps at \<open>MinInt64 / -1\<close>);
  the only divisor in the source is the constant 4.\<close>

definition div64 :: "duration \<Rightarrow> duration \<Rightarrow> duration" where
  "div64 a b = word_of_int (sint a sdiv sint b)"

definition Before :: "time \<Rightarrow> time \<Rightarrow> bool" where
  "Before t u = (t < u)"

text \<open>\<open>net.IP.To4\<close>: the 4-byte form of an IPv4 address, held in 4 bytes or as an
  IPv4-mapped 16-byte address; nil (\<open>None\<close>) for everything else.\<close>

definition To4 :: "byte list \<Rightarrow> byte list option" where
  "To4 ip =
     (if length ip = 4 then Some ip
      else if length ip = 16 \<and> (\<forall>b \<in> set (take 10 ip). b = 0)
              \<and> ip ! 10 = 0xff \<and> ip ! 11 = 0xff then Some (drop 12 ip)
      else None)"

definition emit :: "event list \<Rightarrow> state \<Rightarrow> state" where
  "emit es s = s\<lparr>events := events s @ es\<rparr>"

definition sock_open :: "state \<Rightarrow> sock \<Rightarrow> bool" where
  "sock_open s k = (k \<notin> set (closed_socks s))"

text \<open>\<open>UDPConn.Close\<close> on a socket; closing a closed socket only returns an error.\<close>

definition close_sock :: "sock \<Rightarrow> state \<Rightarrow> state" where
  "close_sock k s =
     (if sock_open s k
      then s\<lparr>closed_socks := k # closed_socks s, events := events s @ [ESockClose k]\<rparr>
      else s)"

text \<open>\<open>WriteMsgUDP\<close> on an upstream socket: the datagram leaves when the socket is open and
  the network takes it; an error is logged and changes nothing.\<close>

definition write_up :: "io \<Rightarrow> sock \<Rightarrow> payload \<Rightarrow> state \<Rightarrow> state" where
  "write_up r k d s =
     (if sock_open s k \<and> r \<noteq> IoErr then emit [EUpWrite k d] s else s)"

definition set_pc :: "nat \<Rightarrow> hpc \<Rightarrow> state \<Rightarrow> state" where
  "set_pc t p s = s\<lparr>handlers := (handlers s)[t := (handlers s ! t)\<lparr>pc := p\<rparr>]\<rparr>"

text \<open>A method called through a nil \<open>*net.UDPConn\<close> takes the address of its embedded
  \<open>conn\<close> and panics; a panic in any goroutine ends the process.\<close>

definition panic :: "state \<Rightarrow> state" where
  "panic s = s\<lparr>crashed := True\<rparr>"

subsection \<open>\<open>Forwarder.handle\<close>\<close>

definition hstep :: "io \<Rightarrow> nat \<Rightarrow> state \<Rightarrow> state option" where
  "hstep r t s =
    (if length (handlers s) \<le> t then None else
     let h = handlers s ! t; a = cliAddr h in
     case pc h of
       H_Load \<Rightarrow>
         (case map_of (clients s) a of
            Some c \<Rightarrow> Some (set_pc t (H_Wait c) s)
          | None \<Rightarrow>
              Some (set_pc t (H_Store (length (conns s)))
                (s\<lparr>conns := conns s @
                     [\<lparr>available = False, rConn = None, lastActive = now s\<rparr>]\<rparr>)))
     | H_Store c \<Rightarrow>
         Some (set_pc t (H_Dial c) (s\<lparr>clients := AList.update a c (clients s)\<rparr>))
     | H_Dial c \<Rightarrow>
         (case To4 (IP (raddr s)) of
            None \<Rightarrow> Some (panic s)
          | Some b \<Rightarrow>
              (case r of
                 IoErr \<Rightarrow>
                   Some (set_pc t H_DialFailed (emit [EDial a (b ! 0 = 127) None] s))
               | IoOk _ \<Rightarrow>
                   Some (set_pc t (H_Establish c (nsocks s))
                     (emit [EDial a (b ! 0 = 127) (Some (nsocks s))]
                        (s\<lparr>nsocks := Suc (nsocks s)\<rparr>)))))
     | H_DialFailed \<Rightarrow>
         Some (set_pc t H_Done (s\<lparr>clients := AList.delete a (clients s)\<rparr>))
     | H_Establish c k \<Rightarrow>
         Some (set_pc t (H_Connect c)
           (emit [EGateOpen c]
              (s\<lparr>conns := (conns s)[c := (conns s ! c)
                    \<lparr>available := True, rConn := Some k, lastActive := now s\<rparr>]\<rparr>)))
     | H_Connect c \<Rightarrow>
         Some (set_pc t (H_First c) (emit [EConnect a] s))
     | H_First c \<Rightarrow>
         (case rConn (conns s ! c) of
            None \<Rightarrow> Some (panic s)
          | Some k \<Rightarrow> Some (set_pc t (H_Read c) (write_up r k (data h) s)))
     | H_Read c \<Rightarrow>
         (case rConn (conns s ! c) of
            None \<Rightarrow> Some (panic s)
          | Some k \<Rightarrow>
              (case r of
                 IoOk b \<Rightarrow>
                   if sock_open s k then Some (set_pc t (H_Reply c b) s)
                   else Some (set_pc t (H_ReadFailed c) s)
               | IoErr \<Rightarrow> Some (set_pc t (H_ReadFailed c) s)))
     | H_ReadFailed c \<Rightarrow>
         (case rConn (conns s ! c) of
            None \<Rightarrow> Some (panic s)
          | Some k \<Rightarrow>
              Some (set_pc t H_Done
                (emit [EDisconnect a]
                   ((close_sock k s)\<lparr>clients := AList.delete a (clients s)\<rparr>))))
     | H_Reply c b \<Rightarrow>
         Some (set_pc t (H_Read c)
           (if sock_open s (listenerConn s) \<and> r \<noteq> IoErr
            then emit [EDownWrite a b] s else s))
     | H_Wait c \<Rightarrow>
         (if available (conns s ! c) then Some (set_pc t (H_Forward c) s) else None)
     | H_Forward c \<Rightarrow>
         (case rConn (conns s ! c) of
            None \<Rightarrow> Some (panic s)
          | Some k \<Rightarrow> Some (set_pc t H_Refresh (write_up r k (data h) s)))
     | H_Refresh \<Rightarrow>
         (case map_of (clients s) a of
            None \<Rightarrow> Some (set_pc t H_Done s)
          | Some c \<Rightarrow>
              Some (set_pc t H_Done
                (if Before (lastActive (conns s ! c))
                      (time_add (now s) (div64 (timeout s) 4))
                 then s\<lparr>conns := (conns s)[c := (conns s ! c)\<lparr>lastActive := now s\<rparr>]\<rparr>
                 else s)))
     | H_Done \<Rightarrow> None)"

subsection \<open>\<open>Forwarder.janitor\<close>\<close>

text \<open>The \<open>Range\<close> of lines 88--94.\<close>

definition janitor_scan :: "state \<Rightarrow> string list" where
  "janitor_scan s =
     map fst (filter (\<lambda>(k, c). Before (lastActive (conns s ! c))
                                  (time_add (now s) (- timeout s))) (clients s))"

text \<open>One round of the loop of lines 96--100: \<open>LoadAndDelete\<close>, then \<open>Close\<close> on the
  entry's socket.\<close>

definition evict1 :: "string \<Rightarrow> state \<Rightarrow> state" where
  "evict1 k s =
     (if crashed s then s else
      case map_of (clients s) k of
        None \<Rightarrow> s
      | Some c \<Rightarrow>
          (case rConn (conns s ! c) of
             None \<Rightarrow> panic (s\<lparr>clients := AList.delete k (clients s)\<rparr>)
           | Some sk \<Rightarrow> close_sock sk (s\<lparr>clients := AList.delete k (clients s)\<rparr>)))"

definition janitor_evict :: "string list \<Rightarrow> state \<Rightarrow> state" where
  "janitor_evict ks s = fold evict1 ks s"

text \<open>The loop of lines 102--104.\<close>

definition janitor_notify :: "string list \<Rightarrow> state \<Rightarrow> state" where
  "janitor_notify ks s = emit (map EDisconnect ks) s"

definition jstep :: "state \<Rightarrow> state option" where
  "jstep s =
     (case janitor s of
        J_Check \<Rightarrow>
          (if closed s then Some (s\<lparr>janitor := J_Done\<rparr>)
           else Some (emit [ESleep (timeout s)]
                  (s\<lparr>janitor := J_Sleep (time_add (now s) (timeout s))\<rparr>)))
      | J_Sleep w \<Rightarrow>
          (if now s < w then None
           else Some (s\<lparr>janitor := J_Evict (janitor_scan s)\<rparr>))
      | J_Evict ks \<Rightarrow> Some ((janitor_evict ks s)\<lparr>janitor := J_Notify ks\<rparr>)
      | J_Notify ks \<Rightarrow> Some ((janitor_notify ks s)\<lparr>janitor := J_Check\<rparr>)
      | J_Done \<Rightarrow> None)"

subsection \<open>\<open>Forwarder.Close\<close>, \<open>Connected\<close>, \<open>run\<close> and \<open>Forward\<close>\<close>

definition close_entry :: "string \<times> cid \<Rightarrow> state \<Rightarrow> state" where
  "close_entry e s =
     (if crashed s then s else
      case rConn (conns s ! snd e) of
        None \<Rightarrow> panic s
      | Some sk \<Rightarrow> close_sock sk s)"

definition Close :: "state \<Rightarrow> state" where
  "Close s =
     (let s1 = fold close_entry (clients s) (s\<lparr>closed := True\<rparr>)
      in if crashed s1 then s1 else close_sock (listenerConn s1) s1)"

definition Connected :: "state \<Rightarrow> string list" where
  "Connected s = map fst (clients s)"

text \<open>One round of \<open>run\<close>: a datagram read from the listening socket starts a handler; a
  read error ends the loop. On a closed socket only the error is left.\<close>

definition recv :: "(string \<times> payload) option \<Rightarrow> state \<Rightarrow> state option" where
  "recv m s =
     (if \<not> ingress s then None else
      case m of
        None \<Rightarrow> Some (s\<lparr>ingress := False\<rparr>)
      | Some (a, d) \<Rightarrow>
          if sock_open s (listenerConn s)
          then Some (s\<lparr>handlers := handlers s @ [\<lparr>pc = H_Load, data = d, cliAddr = a\<rparr>]\<rparr>)
          else None)"

text \<open>What \<open>Forward\<close> asks of the network: address resolution, binding the listening
  socket, and the clock.\<close>

record net =
  resolveUDPAddr :: "string \<Rightarrow> error + udpaddr"
  listenUDP :: "udpaddr \<Rightarrow> error option"
  clock :: time

datatype task = Janitor | Run

text \<open>\<open>Forward\<close> returns the forwarder or the error, and the goroutines it has started.\<close>

definition Forward :: "net \<Rightarrow> string \<Rightarrow> string \<Rightarrow> duration \<Rightarrow> (error + state) \<times> task list" where
  "Forward n src dst tmo =
     (case resolveUDPAddr n src of
        Inl err \<Rightarrow> (Inl err, [])
      | Inr listenAddr \<Rightarrow>
          (case resolveUDPAddr n dst of
             Inl err \<Rightarrow> (Inl err, [])
           | Inr ra \<Rightarrow>
               (case listenUDP n listenAddr of
                  Some err \<Rightarrow> (Inl err, [])
                | None \<Rightarrow>
                    (Inr \<lparr>raddr = ra, listenerConn = 0, clients = [], timeout = tmo,
                          closed = False, conns = [], handlers = [], janitor = J_Check,
                          ingress = True, now = clock n, nsocks = 1, closed_socks = [],
                          events = [], crashed = False\<rparr>,
                     [Janitor, Run]))))"

subsection \<open>Schedules\<close>

datatype action =
    Tick int                              \<comment> \<open>time passes, by so many nanoseconds\<close>
  | Recv "(string \<times> payload) option"      \<comment> \<open>a round of \<open>run\<close>\<close>
  | Hstep nat io                          \<comment> \<open>a step of a handler\<close>
  | Jan                                   \<comment> \<open>a step of the janitor\<close>
  | Stop                                  \<comment> \<open>the caller runs \<open>Close\<close>\<close>

definition step :: "action \<Rightarrow> state \<Rightarrow> state option" where
  "step a s =
     (if crashed s then None else
      case a of
        Tick d \<Rightarrow> if d < 0 then None else Some (s\<lparr>now := now s + d\<rparr>)
      | Recv m \<Rightarrow> recv m s
      | Hstep t r \<Rightarrow> hstep r t s
      | Jan \<Rightarrow> jstep s
      | Stop \<Rightarrow> Some (Close s))"

fun run :: "action list \<Rightarrow> state \<Rightarrow> state option" where
  "run [] s = Some s"
| "run (a # as) s = (case step a s of None \<Rightarrow> None | Some s' \<Rightarrow> run as s')"

subsection \<open>The scenario of the specification\<close>

text \<open>A listener on \<open>0.0.0.0:4500\<close>, an idle timeout of ten seconds, and the client
  \<open>10.0.0.1:5000\<close>. An address literal resolves to the address it denotes, an IPv4
  literal to its IPv4-mapped form of 16 bytes (\<open>To4\<close> treats the form of 4 bytes alike).\<close>

definition net0 :: net where
  "net0 = \<lparr>resolveUDPAddr = (\<lambda>a.
       if a = ''0.0.0.0:4500''
         then Inr \<lparr>IP = [0, 0, 0, 0, 0, 0, 0, 0, 0, 0, 255, 255, 0, 0, 0, 0], Port = 4500\<rparr>
       else if a = ''127.0.0.1:6000''
         then Inr \<lparr>IP = [0, 0, 0, 0, 0, 0, 0, 0, 0, 0, 255, 255, 127, 0, 0, 1], Port = 6000\<rparr>
       else if a = ''[::1]:6000''
         then Inr \<lparr>IP = [0, 0, 0, 0, 0, 0, 0, 0, 0, 0, 0, 0, 0, 0, 0, 1], Port = 6000\<rparr>
       else Inl (ResolveError a)),
     listenUDP = (\<lambda>_. None), clock = 0\<rparr>"

definition boot :: "string \<Rightarrow> state" where
  "boot dst =
     (case fst (Forward net0 ''0.0.0.0:4500'' dst 10000000000) of Inr s \<Rightarrow> s)"

definition alice :: string where
  "alice = ''10.0.0.1:5000''"

definition after :: "action list \<Rightarrow> state \<Rightarrow> state" where
  "after as s = the (run as s)"

text \<open>The six steps of a creating handler up to its relay loop, the dial succeeding.\<close>

definition establish :: "nat \<Rightarrow> action list" where
  "establish t = [Hstep t IoErr, Hstep t IoErr, Hstep t (IoOk []), Hstep t IoErr,
                  Hstep t IoErr, Hstep t (IoOk [])]"

text \<open>A session established at time 0; one second later a second datagram of the same
  client has been forwarded and its handler stands before the refresh of line 179.\<close>

definition sR :: state where
  "sR = after ([Recv (Some (alice, [1]))] @ establish 0 @
               [Tick 1000000000, Recv (Some (alice, [2])),
                Hstep 1 IoErr, Hstep 1 IoErr, Hstep 1 (IoOk [])])
          (boot ''127.0.0.1:6000'')"

text \<open>An upstream that is a pure IPv6 address: the first datagram has been stored in
  the table and its handler stands before the dial.\<close>

definition s6 :: state where
  "s6 = after [Recv (Some (alice, [1])), Hstep 0 IoErr, Hstep 0 IoErr] (boot ''[::1]:6000'')"


text \<open>The first datagram of the client has arrived; its handler has not run yet.\<close>

definition sN :: state where
  "sN = after [Recv (Some (alice, [1]))] (boot ''127.0.0.1:6000'')"

subsection \<open>Schedules of two handlers for one client\<close>

text \<open>Two datagrams of the client, both handlers past their \<open>Load\<close> before either has
  stored.\<close>

definition race_create :: "action list" where
  "race_create =
     [Recv (Some (alice, [1])), Recv (Some (alice, [2])),
      Hstep 0 IoErr, Hstep 1 IoErr, Hstep 0 IoErr, Hstep 1 IoErr,
      Hstep 0 (IoOk []), Hstep 1 (IoOk []), Hstep 0 IoErr, Hstep 1 IoErr]"

text \<open>The second datagram arrives while the first handler dials; the dial succeeds, and
  the second handler is scheduled between the opening of the gate and the first write.\<close>

definition race_order :: "action list" where
  "race_order =
     [Recv (Some (alice, [1])), Hstep 0 IoErr, Hstep 0 IoErr,
      Recv (Some (alice, [2])), Hstep 1 IoErr,
      Hstep 0 (IoOk []), Hstep 0 IoErr,
      Hstep 1 IoErr, Hstep 1 (IoOk []),
      Hstep 0 IoErr, Hstep 0 (IoOk [])]"

text \<open>The dial has succeeded; the creator stands before lines 137--139, a second handler
  waits at the gate.\<close>

definition sG :: state where
  "sG = after [Recv (Some (alice, [1])), Hstep 0 IoErr, Hstep 0 IoErr,
               Recv (Some (alice, [2])), Hstep 1 IoErr, Hstep 0 (IoOk [])]
          (boot ''127.0.0.1:6000'')"

text \<open>The second datagram arrives while the first handler dials, and the dial fails.\<close>

definition race_fail :: "action list" where
  "race_fail =
     [Recv (Some (alice, [1])), Hstep 0 IoErr, Hstep 0 IoErr,
      Recv (Some (alice, [2])), Hstep 1 IoErr,
      Hstep 0 IoErr, Hstep 0 IoErr]"

definition sW :: state where
  "sW = after race_fail (boot ''127.0.0.1:6000'')"

text \<open>What may follow: a third datagram of the client, whose session is established,
  later evicted by the janitor, and at last \<open>Close\<close>.\<close>

definition retry :: "action list" where
  "retry = [Recv (Some (alice, [3]))] @ establish 2 @ [Jan, Tick 10000000001, Jan, Jan, Jan, Stop]"

text \<open>A handler that can still open the gate of the connection \<open>c\<close> is one that has
  allocated \<open>c\<close> and not yet run line 139. The gate of \<open>c\<close> is orphaned when it is shut
  and no handler can open it.\<close>

definition opener :: "cid \<Rightarrow> hpc \<Rightarrow> bool" where
  "opener c p =
     (case p of H_Store c' \<Rightarrow> c' = c | H_Dial c' \<Rightarrow> c' = c | H_Establish c' _ \<Rightarrow> c' = c
      | _ \<Rightarrow> False)"

definition orphaned :: "cid \<Rightarrow> state \<Rightarrow> bool" where
  "orphaned c s =
     (c < length (conns s) \<and> \<not> available (conns s ! c)
      \<and> list_all (\<lambda>h. \<not> opener c (pc h)) (handlers s))"

text \<open>A session is established, the janitor evicts it after the timeout, and then the
  relay loop of the session is scheduled.\<close>

definition evict_then_relay :: "action list" where
  "evict_then_relay =
     [Recv (Some (alice, [1]))] @ establish 0 @
     [Jan, Tick 10000000001, Jan, Jan, Jan, Hstep 0 (IoOk [9]), Hstep 0 IoErr]"

section \<open>Properties\<close>

subsection \<open>Helper facts\<close>

lemma sint_div64_4: "0 \<le> sint (a :: 64 word) \<Longrightarrow> sint (div64 a 4) = sint a div 4"
proof -
  assume a: "0 \<le> sint a"
  have b: "sint a < 2 ^ 63" using sint_lt [of a] by simp
  have "sint a sdiv 4 = sint a div 4" using a by (simp add: signed_divide_int_def sgn_if)
  moreover have "sint (word_of_int (sint a div 4) :: 64 word) = sint a div 4"
    using a b by (simp add: sint_sbintrunc' signed_take_bit_int_eq_self)
  ultimately show ?thesis by (simp add: div64_def)
qed

lemma To4_length: "To4 ip = Some b \<Longrightarrow> length b = 4"
  by (auto simp: To4_def split: if_splits)

lemma close_sock_frame [simp]:
  "crashed (close_sock k s) = crashed s" "conns (close_sock k s) = conns s"
  "clients (close_sock k s) = clients s" "closed (close_sock k s) = closed s"
  "listenerConn (close_sock k s) = listenerConn s"
  "(close_sock k s)\<lparr>closed_socks := cs, events := es\<rparr> = s\<lparr>closed_socks := cs, events := es\<rparr>"
  "set (closed_socks (close_sock k s)) = insert k (set (closed_socks s))"
  by (auto simp: close_sock_def sock_open_def)

lemma close_entry_table [simp]:
  "clients (close_entry e s) = clients s" "closed (close_entry e s) = closed s"
  by (auto simp: close_entry_def panic_def split: option.splits)






subsection \<open>Startup\<close>

text \<open>
  C8. When \<open>Forward\<close> fails, it hands the error of the failing operation to its caller
  and has started nothing: each of the three failures (resolving the listen address,
  resolving the upstream address, binding the listening socket) makes the result the pair
  of that error and no goroutine; and whenever the result is an error, no goroutine was
  started, no forwarder is returned, and the error is the one of the first operation that
  failed.
\<close>

theorem Forward_failure:
  "(resolveUDPAddr n src = Inl e \<longrightarrow> Forward n src dst tmo = (Inl e, [])) \<and>
   (\<forall>la. resolveUDPAddr n src = Inr la \<and> resolveUDPAddr n dst = Inl e
      \<longrightarrow> Forward n src dst tmo = (Inl e, [])) \<and>
   (\<forall>la ra. resolveUDPAddr n src = Inr la \<and> resolveUDPAddr n dst = Inr ra
        \<and> listenUDP n la = Some e
      \<longrightarrow> Forward n src dst tmo = (Inl e, [])) \<and>
   (fst (Forward n src dst tmo) = Inl e \<longrightarrow>
      snd (Forward n src dst tmo) = [] \<and>
      (resolveUDPAddr n src = Inl e \<or>
       (\<exists>la. resolveUDPAddr n src = Inr la \<and>
          (resolveUDPAddr n dst = Inl e \<or>
           (\<exists>ra. resolveUDPAddr n dst = Inr ra \<and> listenUDP n la = Some e)))))"
  by (auto simp: Forward_def split: sum.splits option.splits)

theorem Forward_failure_witness:
  "resolveUDPAddr net0 ''0.0.0.0:4500''
     = Inr \<lparr>IP = [0, 0, 0, 0, 0, 0, 0, 0, 0, 0, 255, 255, 0, 0, 0, 0], Port = 4500\<rparr> \<and>
   resolveUDPAddr net0 ''nowhere:1'' = Inl (ResolveError ''nowhere:1'') \<and>
   Forward net0 ''0.0.0.0:4500'' ''nowhere:1'' 10000000000
     = (Inl (ResolveError ''nowhere:1''), [])"
  using Forward_failure [of net0 "''0.0.0.0:4500''" "ResolveError ''nowhere:1''"
      "''nowhere:1''" 10000000000]
  by (simp add: net0_def)

subsection \<open>The refresh of \<open>lastActive\<close>\<close>

text \<open>
  C3. The claim is that a forwarded datagram refreshes \<open>lastActive\<close> only when more than
  a quarter of the timeout has passed since the last refresh. The test of line 182 adds
  the quarter to the present instant where line 90 subtracts: with a timeout that is not
  negative and a \<open>lastActive\<close> that is not in the future, the step of lines 179--185
  leaves \<open>lastActive\<close> equal to the present instant, however little time has passed.
\<close>

theorem refresh_ignores_elapsed:
  assumes "\<not> crashed s" "t < length (handlers s)" "pc (handlers s ! t) = H_Refresh"
    and "map_of (clients s) (cliAddr (handlers s ! t)) = Some c" "c < length (conns s)"
    and "0 \<le> sint (timeout s)" "lastActive (conns s ! c) \<le> now s"
  shows "\<exists>s'. step (Hstep t r) s = Some s' \<and> lastActive (conns s' ! c) = now s"
  using assms
  by (auto simp: step_def hstep_def set_pc_def Before_def time_add_def sint_div64_4)

theorem refresh_ignores_elapsed_witness:
  "lastActive (conns sR ! 0) = 0 \<and> now sR = 1000000000
   \<and> sint (div64 (timeout sR) 4) = 2500000000
   \<and> (\<exists>s'. step (Hstep 1 IoErr) sR = Some s' \<and> lastActive (conns s' ! 0) = 1000000000)"
proof -
  have h: "\<not> crashed sR" "1 < length (handlers sR)" "pc (handlers sR ! 1) = H_Refresh"
    "map_of (clients sR) (cliAddr (handlers sR ! 1)) = Some 0" "0 < length (conns sR)"
    "0 \<le> sint (timeout sR)" "lastActive (conns sR ! 0) \<le> now sR"
    by code_simp+
  have v: "lastActive (conns sR ! 0) = 0" "now sR = 1000000000"
    "sint (div64 (timeout sR) 4) = 2500000000"
    by code_simp+
  from refresh_ignores_elapsed [OF h, of IoErr] v show ?thesis by simp
qed

subsection \<open>The loopback test of the dial\<close>

text \<open>
  C10. The claim is that the handler never indexes a nil slice when it dials, also when
  the upstream address is a pure IPv6 address. \<open>To4\<close> returns a slice of four bytes or
  nil (lemma \<open>To4_length\<close>), and line 124 indexes its result without looking: whenever
  the upstream address has no 4-byte form, the dial step of a creating handler panics and
  the process is gone. \<open>Forward\<close> accepts such an upstream, \<open>[::1]:6000\<close> for one.
\<close>

theorem dial_panics_without_ipv4_form:
  assumes "\<not> crashed s" "t < length (handlers s)" "pc (handlers s ! t) = H_Dial c"
    and "To4 (IP (raddr s)) = None"
  shows "step (Hstep t r) s = Some (panic s) \<and> crashed (panic s)"
  using assms by (simp add: step_def hstep_def panic_def)

theorem dial_panics_without_ipv4_form_witness:
  "fst (Forward net0 ''0.0.0.0:4500'' ''[::1]:6000'' 10000000000) = Inr (boot ''[::1]:6000'')
   \<and> run [Recv (Some (alice, [1])), Hstep 0 IoErr, Hstep 0 IoErr] (boot ''[::1]:6000'') = Some s6
   \<and> pc (handlers s6 ! 0) = H_Dial 0
   \<and> step (Hstep 0 (IoOk [])) s6 = Some (panic s6) \<and> crashed (panic s6)"
proof -
  have h: "\<not> crashed s6" "0 < length (handlers s6)" "pc (handlers s6 ! 0) = H_Dial 0"
    "To4 (IP (raddr s6)) = None"
    by code_simp+
  have v: "fst (Forward net0 ''0.0.0.0:4500'' ''[::1]:6000'' 10000000000) = Inr (boot ''[::1]:6000'')"
    "run [Recv (Some (alice, [1])), Hstep 0 IoErr, Hstep 0 IoErr] (boot ''[::1]:6000'') = Some s6"
    by code_simp+
  from dial_panics_without_ipv4_form [OF h, of "IoOk []"] h(3) v show ?thesis by simp
qed

subsection \<open>\<open>Close\<close>\<close>



subsection \<open>The janitor\<close>




subsection \<open>Steps of a handler\<close>

lemma set_pc_simps [simp]:
  "clients (set_pc t p s) = clients s" "conns (set_pc t p s) = conns s"
  "events (set_pc t p s) = events s" "crashed (set_pc t p s) = crashed s"
  "raddr (set_pc t p s) = raddr s" "nsocks (set_pc t p s) = nsocks s"
  "closed_socks (set_pc t p s) = closed_socks s" "now (set_pc t p s) = now s"
  "ingress (set_pc t p s) = ingress s" "listenerConn (set_pc t p s) = listenerConn s"
  "timeout (set_pc t p s) = timeout s" "janitor (set_pc t p s) = janitor s"
  "closed (set_pc t p s) = closed s"
  "length (handlers (set_pc t p s)) = length (handlers s)"
  "t < length (handlers s) \<Longrightarrow> pc (handlers (set_pc t p s) ! t) = p"
  "t < length (handlers s) \<Longrightarrow> cliAddr (handlers (set_pc t p s) ! t) = cliAddr (handlers s ! t)"
  "t < length (handlers s) \<Longrightarrow> data (handlers (set_pc t p s) ! t) = data (handlers s ! t)"
  "u \<noteq> t \<Longrightarrow> handlers (set_pc t p s) ! u = handlers s ! u"
  by (simp_all add: set_pc_def)

lemma emit_simps [simp]:
  "clients (emit es s) = clients s" "conns (emit es s) = conns s"
  "events (emit es s) = events s @ es" "crashed (emit es s) = crashed s"
  "raddr (emit es s) = raddr s" "nsocks (emit es s) = nsocks s"
  "closed_socks (emit es s) = closed_socks s" "now (emit es s) = now s"
  "ingress (emit es s) = ingress s" "listenerConn (emit es s) = listenerConn s"
  "timeout (emit es s) = timeout s" "janitor (emit es s) = janitor s"
  "closed (emit es s) = closed s" "handlers (emit es s) = handlers s"
  by (simp_all add: emit_def)

subsection \<open>A dial that fails\<close>

text \<open>
  C4. A handler that finds no entry for its client, and whose dial fails, runs four
  steps and returns: the table is what it was before (the entry it had stored is removed
  again, so \<open>Connected\<close> does not report the client), the only thing it did to the
  outside is the one failed dial (no datagram was written, no gate opened, no connect
  hook called, no socket created), and the \<open>connection\<close> it had allocated stays
  pending. The next datagram of the same client then finds no entry either: its handler
  allocates a fresh \<open>connection\<close>, stores it, and dials again. The upstream address is
  one that has a 4-byte form.
\<close>

theorem dial_failure_isolated:
  assumes "\<not> crashed s" "t < length (handlers s)" "pc (handlers s ! t) = H_Load"
    and "cliAddr (handlers s ! t) = a" "map_of (clients s) a = None"
    and "To4 (IP (raddr s)) = Some b" "ingress s" "sock_open s (listenerConn s)"
    and "n = length (handlers s)" "c = length (conns s)"
  shows "\<exists>s' s''.
      run [Hstep t r1, Hstep t r2, Hstep t IoErr, Hstep t r4] s = Some s'
      \<and> pc (handlers s' ! t) = H_Done \<and> clients s' = clients s \<and> a \<notin> set (Connected s')
      \<and> events s' = events s @ [EDial a (b ! 0 = 127) None]
      \<and> nsocks s' = nsocks s \<and> closed_socks s' = closed_socks s
      \<and> conns s' = conns s @ [\<lparr>available = False, rConn = None, lastActive = now s\<rparr>]
      \<and> run [Recv (Some (a, d)), Hstep n r5, Hstep n r6, Hstep n r7] s' = Some s''
      \<and> pc (handlers s'' ! n)
          = (if r7 = IoErr then H_DialFailed else H_Establish (Suc c) (nsocks s))
      \<and> map_of (clients s'') a = Some (Suc c)
      \<and> events s'' = events s' @ [EDial a (b ! 0 = 127) (if r7 = IoErr then None else Some (nsocks s))]"
proof -
  let ?s1 = "set_pc t (H_Store c) (s\<lparr>conns := conns s @ [\<lparr>available = False, rConn = None, lastActive = now s\<rparr>]\<rparr>)"
  have 1: "step (Hstep t r1) s = Some ?s1"
    using assms by (simp add: step_def hstep_def)
  let ?s2 = "set_pc t (H_Dial c) (?s1\<lparr>clients := AList.update a c (clients s)\<rparr>)"
  have 2: "step (Hstep t r2) ?s1 = Some ?s2"
    using assms by (simp add: step_def hstep_def set_pc_def)
  let ?s3 = "set_pc t H_DialFailed (emit [EDial a (b ! 0 = 127) None] ?s2)"
  have 3: "step (Hstep t IoErr) ?s2 = Some ?s3"
    using assms by (simp add: step_def hstep_def set_pc_def)
  have na: "a \<notin> fst ` set (clients s)" using assms(5) by (simp add: map_of_eq_None_iff)
  let ?s4 = "set_pc t H_Done (?s3\<lparr>clients := clients s\<rparr>)"
  have 4: "step (Hstep t r4) ?s3 = Some ?s4"
    using assms na by (simp add: step_def hstep_def set_pc_def emit_def AList.delete_update_same)
  have r: "run [Hstep t r1, Hstep t r2, Hstep t IoErr, Hstep t r4] s = Some ?s4"
    using 1 2 3 4 by simp
  have p: "pc (handlers ?s4 ! t) = H_Done" "clients ?s4 = clients s" "a \<notin> set (Connected ?s4)"
    "events ?s4 = events s @ [EDial a (b ! 0 = 127) None]" "nsocks ?s4 = nsocks s"
    "closed_socks ?s4 = closed_socks s"
    "conns ?s4 = conns s @ [\<lparr>available = False, rConn = None, lastActive = now s\<rparr>]"
    using assms na by (simp_all add: Connected_def)
  let ?s5 = "?s4\<lparr>handlers := handlers ?s4 @ [\<lparr>pc = H_Load, data = d, cliAddr = a\<rparr>]\<rparr>"
  have 5: "step (Recv (Some (a, d))) ?s4 = Some ?s5"
    using assms by (simp add: step_def recv_def sock_open_def)
  have l: "length (handlers ?s4) = n" using assms by simp
  have h5: "handlers ?s5 ! n = \<lparr>pc = H_Load, data = d, cliAddr = a\<rparr>" "n < length (handlers ?s5)"
    using l by (simp_all add: nth_append)
  let ?s6 = "set_pc n (H_Store (Suc c)) (?s5\<lparr>conns := conns ?s5 @ [\<lparr>available = False, rConn = None, lastActive = now s\<rparr>]\<rparr>)"
  have 6: "step (Hstep n r5) ?s5 = Some ?s6"
    using assms h5 by (simp add: step_def hstep_def)
  let ?s7 = "set_pc n (H_Dial (Suc c)) (?s6\<lparr>clients := AList.update a (Suc c) (clients s)\<rparr>)"
  have h6: "handlers ?s6 ! n = \<lparr>pc = H_Store (Suc c), data = d, cliAddr = a\<rparr>" "n < length (handlers ?s6)"
    using h5 by (simp_all add: set_pc_def)
  have 7: "step (Hstep n r6) ?s6 = Some ?s7"
    using assms h6 by (simp add: step_def hstep_def)
  have h7: "handlers ?s7 ! n = \<lparr>pc = H_Dial (Suc c), data = d, cliAddr = a\<rparr>" "n < length (handlers ?s7)"
    using h6 by (simp_all add: set_pc_def)
  let ?s8 = "if r7 = IoErr then set_pc n H_DialFailed (emit [EDial a (b ! 0 = 127) None] ?s7)
     else set_pc n (H_Establish (Suc c) (nsocks s)) (emit [EDial a (b ! 0 = 127) (Some (nsocks s))] (?s7\<lparr>nsocks := Suc (nsocks s)\<rparr>))"
  have 8: "step (Hstep n r7) ?s7 = Some ?s8"
    using assms h7 by (cases r7) (simp_all add: step_def hstep_def)
  have r2: "run [Recv (Some (a, d)), Hstep n r5, Hstep n r6, Hstep n r7] ?s4 = Some ?s8"
    using 5 6 7 8 by simp
  have q: "pc (handlers ?s8 ! n) = (if r7 = IoErr then H_DialFailed else H_Establish (Suc c) (nsocks s))"
    "map_of (clients ?s8) a = Some (Suc c)"
    "events ?s8 = events ?s4 @ [EDial a (b ! 0 = 127) (if r7 = IoErr then None else Some (nsocks s))]"
    using h7 by (simp_all add: AList.update_conv')
  show ?thesis
    using r p r2 q by (intro exI [of _ ?s4] exI [of _ ?s8] conjI)
qed


theorem dial_failure_isolated_witness:
  "\<exists>s' s''.
      run [Hstep 0 IoErr, Hstep 0 IoErr, Hstep 0 IoErr, Hstep 0 IoErr] sN = Some s'
      \<and> pc (handlers s' ! 0) = H_Done \<and> clients s' = [] \<and> alice \<notin> set (Connected s')
      \<and> events s' = [EDial alice True None]
      \<and> conns s' = [\<lparr>available = False, rConn = None, lastActive = 0\<rparr>]
      \<and> run [Recv (Some (alice, [2])), Hstep 1 IoErr, Hstep 1 IoErr, Hstep 1 (IoOk [])] s' = Some s''
      \<and> pc (handlers s'' ! 1) = H_Establish 1 1
      \<and> map_of (clients s'') alice = Some 1
      \<and> events s'' = [EDial alice True None, EDial alice True (Some 1)]"
proof -
  have h: "\<not> crashed sN" "0 < length (handlers sN)" "pc (handlers sN ! 0) = H_Load"
    "cliAddr (handlers sN ! 0) = alice" "map_of (clients sN) alice = None"
    "To4 (IP (raddr sN)) = Some [127, 0, 0, 1]" "ingress sN" "sock_open sN (listenerConn sN)"
    "1 = length (handlers sN)" "0 = length (conns sN)"
    by code_simp+
  have v: "clients sN = []" "events sN = []" "conns sN = []" "now sN = 0" "nsocks sN = 1"
    by code_simp+
  from dial_failure_isolated [OF h, of IoErr IoErr IoErr "[2]" IoErr IoErr "IoOk []"] v
  show ?thesis by (auto simp del: run.simps)
qed

subsection \<open>Creation of a session\<close>

text \<open>
  C1. The claim is that handlers running at once for first datagrams of one client leave
  one creator: one \<open>connection\<close>, one dial. \<open>handle\<close> looks the client up (line 110)
  and stores the new \<open>connection\<close> (line 117) in two steps. In the schedule
  \<open>race_create\<close> both handlers look up before either stores: both find nothing, both
  allocate, both dial and succeed. Two dials were made for the client, two connections
  are established on two sockets, and the table keeps the one stored last.
\<close>

theorem racing_creators_dial_twice:
  "map_option (\<lambda>s. (events s, clients s, conns s)) (run race_create (boot ''127.0.0.1:6000''))
     = Some ([EDial alice True (Some 1), EDial alice True (Some 2), EGateOpen 0, EGateOpen 1],
             [(alice, 1)],
             [\<lparr>available = True, rConn = Some 1, lastActive = 0\<rparr>,
              \<lparr>available = True, rConn = Some 2, lastActive = 0\<rparr>])"
  by code_simp

subsection \<open>The gate and the first datagram\<close>

text \<open>
  The order C2 claims does not hold. In the schedule \<open>race_order\<close> the datagram \<open>[2]\<close>,
  which waited at the gate, is written to the upstream socket before the datagram \<open>[1]\<close>
  that made the session, and the gate is opened before \<open>[1]\<close> is written.
\<close>

theorem waiter_overtakes_first_datagram:
  "map_option events (run race_order (boot ''127.0.0.1:6000''))
     = Some [EDial alice True (Some 1), EGateOpen 0, EUpWrite 1 [2], EConnect alice,
             EUpWrite 1 [1]]"
  by code_simp

text \<open>
  C2, as the code has it. After a dial that succeeded the creator opens the gate first
  (lines 137--139), then calls the connect hook (line 141), and writes the datagram that
  made the session last (line 143), if the write succeeds at all. From the moment the gate
  is open, and so before that write, every handler waiting at the gate can go on to
  forward its own datagram.
\<close>

theorem gate_opens_before_first_write:
  assumes "\<not> crashed s" "t < length (handlers s)" "pc (handlers s ! t) = H_Establish c k"
    and "c < length (conns s)"
  shows "\<exists>s1 s3.
      step (Hstep t r1) s = Some s1
      \<and> available (conns s1 ! c) \<and> rConn (conns s1 ! c) = Some k
      \<and> events s1 = events s @ [EGateOpen c]
      \<and> (\<forall>u r. u < length (handlers s) \<and> pc (handlers s ! u) = H_Wait c \<longrightarrow>
            (\<exists>s'. step (Hstep u r) s1 = Some s' \<and> pc (handlers s' ! u) = H_Forward c))
      \<and> run [Hstep t r2, Hstep t r3] s1 = Some s3
      \<and> pc (handlers s3 ! t) = H_Read c
      \<and> events s3 = events s1 @ EConnect (cliAddr (handlers s ! t)) #
            (if sock_open s k \<and> r3 \<noteq> IoErr then [EUpWrite k (data (handlers s ! t))] else [])"
proof -
  let ?a = "cliAddr (handlers s ! t)"
  let ?s1 = "set_pc t (H_Connect c) (emit [EGateOpen c]
       (s\<lparr>conns := (conns s)[c := (conns s ! c)\<lparr>available := True, rConn := Some k, lastActive := now s\<rparr>]\<rparr>))"
  have 1: "step (Hstep t r1) s = Some ?s1"
    using assms by (simp add: step_def hstep_def)
  have p1: "available (conns ?s1 ! c)" "rConn (conns ?s1 ! c) = Some k"
    "events ?s1 = events s @ [EGateOpen c]"
    using assms by simp_all
  have w: "\<forall>u r. u < length (handlers s) \<and> pc (handlers s ! u) = H_Wait c \<longrightarrow>
            (\<exists>s'. step (Hstep u r) ?s1 = Some s' \<and> pc (handlers s' ! u) = H_Forward c)"
  proof (intro allI impI)
    fix u r assume u: "u < length (handlers s) \<and> pc (handlers s ! u) = H_Wait c"
    with assms have "u \<noteq> t" by auto
    with u assms show "\<exists>s'. step (Hstep u r) ?s1 = Some s' \<and> pc (handlers s' ! u) = H_Forward c"
      by (simp add: step_def hstep_def)
  qed
  let ?s2 = "set_pc t (H_First c) (emit [EConnect ?a] ?s1)"
  have 2: "step (Hstep t r2) ?s1 = Some ?s2"
    using assms by (simp add: step_def hstep_def)
  let ?s3 = "set_pc t (H_Read c) (write_up r3 k (data (handlers s ! t)) ?s2)"
  have 3: "step (Hstep t r3) ?s2 = Some ?s3"
    using assms by (simp add: step_def hstep_def)
  have r: "run [Hstep t r2, Hstep t r3] ?s1 = Some ?s3" using 2 3 by simp
  have p3: "pc (handlers ?s3 ! t) = H_Read c"
    "events ?s3 = events ?s1 @ EConnect ?a #
        (if sock_open s k \<and> r3 \<noteq> IoErr then [EUpWrite k (data (handlers s ! t))] else [])"
    using assms by (simp_all add: write_up_def sock_open_def set_pc_def emit_def)
  show ?thesis
    using 1 p1 w r p3 by (intro exI [of _ ?s1] exI [of _ ?s3] conjI)
qed

theorem gate_opens_before_first_write_witness:
  "pc (handlers sG ! 0) = H_Establish 0 1 \<and> pc (handlers sG ! 1) = H_Wait 0
   \<and> step (Hstep 1 IoErr) sG = None
   \<and> (\<exists>s1 s3. step (Hstep 0 IoErr) sG = Some s1
        \<and> events s1 = events sG @ [EGateOpen 0]
        \<and> (\<exists>s'. step (Hstep 1 IoErr) s1 = Some s' \<and> pc (handlers s' ! 1) = H_Forward 0)
        \<and> run [Hstep 0 IoErr, Hstep 0 (IoOk [])] s1 = Some s3
        \<and> events s3 = events s1 @ [EConnect alice, EUpWrite 1 [1]])"
proof -
  have h: "\<not> crashed sG" "0 < length (handlers sG)" "pc (handlers sG ! 0) = H_Establish 0 1"
    "0 < length (conns sG)"
    by code_simp+
  have v: "pc (handlers sG ! 1) = H_Wait 0" "step (Hstep 1 IoErr) sG = None"
    "1 < length (handlers sG)" "cliAddr (handlers sG ! 0) = alice" "data (handlers sG ! 0) = [1]"
    "sock_open sG 1"
    by code_simp+
  from gate_opens_before_first_write [OF h, of IoErr IoErr "IoOk []"]
  obtain s1 s3 where a: "step (Hstep 0 IoErr) sG = Some s1"
      "events s1 = events sG @ [EGateOpen 0]"
      "\<forall>u r. u < length (handlers sG) \<and> pc (handlers sG ! u) = H_Wait 0 \<longrightarrow>
            (\<exists>s'. step (Hstep u r) s1 = Some s' \<and> pc (handlers s' ! u) = H_Forward 0)"
      "run [Hstep 0 IoErr, Hstep 0 (IoOk [])] s1 = Some s3"
      "events s3 = events s1 @ EConnect (cliAddr (handlers sG ! 0)) #
            (if sock_open sG 1 \<and> IoOk [] \<noteq> IoErr then [EUpWrite 1 (data (handlers sG ! 0))] else [])"
    by blast
  from a(3) v have "\<exists>s'. step (Hstep 1 IoErr) s1 = Some s' \<and> pc (handlers s' ! 1) = H_Forward 0"
    by blast
  with a v h show ?thesis by auto
qed

subsection \<open>The gate after a dial that failed\<close>

lemma list_all_update: "list_all P xs \<Longrightarrow> P x \<Longrightarrow> list_all P (xs[i := x])"
  by (metis insert_iff list_all_iff set_update_subset_insert subsetD)

lemma evict1_frame [simp]:
  "handlers (evict1 k s) = handlers s" "conns (evict1 k s) = conns s"
  by (auto simp: evict1_def panic_def close_sock_def split: option.splits)

lemma fold_evict1_frame [simp]:
  "handlers (fold evict1 ks s) = handlers s" "conns (fold evict1 ks s) = conns s"
  by (induction ks arbitrary: s) simp_all

lemma close_entry_frame [simp]:
  "handlers (close_entry e s) = handlers s" "conns (close_entry e s) = conns s"
  by (auto simp: close_entry_def panic_def close_sock_def split: option.splits)

lemma fold_close_entry_frame [simp]:
  "handlers (fold close_entry es s) = handlers s" "conns (fold close_entry es s) = conns s"
  by (induction es arbitrary: s) simp_all

lemma Close_frame [simp]:
  "handlers (Close s) = handlers s" "conns (Close s) = conns s"
  by (simp_all add: Close_def Let_def close_sock_def)

lemma jstep_frame:
  "jstep s = Some s' \<Longrightarrow> handlers s' = handlers s \<and> conns s' = conns s"
  by (auto simp: jstep_def janitor_evict_def janitor_notify_def emit_def split: jpc.splits if_splits)

lemma available_refresh:
  "available (xs[i := (xs ! i)\<lparr>lastActive := v\<rparr>] ! c) = available (xs ! c)"
  by (cases "i < length xs") (auto simp: nth_list_update list_update_beyond)

lemma hstep_orphaned:
  assumes "orphaned c s" "t < length (handlers s)" "pc (handlers s ! t) = H_Wait c"
    and "hstep r u s = Some s'"
  shows "orphaned c s' \<and> t < length (handlers s') \<and> pc (handlers s' ! t) = H_Wait c"
proof -
  define h where "h = handlers s ! u"
  from assms(4) have u: "u < length (handlers s)"
    by (auto simp: hstep_def split: if_splits)
  have ne: "u \<noteq> t"
    using assms by (auto simp: hstep_def orphaned_def)
  have nop: "\<not> opener c (pc h)"
    using assms(1) u by (simp add: orphaned_def h_def list_all_length)
  show ?thesis
  proof (cases "pc h")
    case H_Load
    then show ?thesis
      using assms u ne nop unfolding hstep_def orphaned_def h_def
      by (auto simp: Let_def set_pc_def emit_def panic_def write_up_def close_sock_def
            list_all_update nth_append opener_def
          split: option.splits io.splits if_splits)
  next
    case (H_Store x2)
    then show ?thesis
      using assms u ne nop unfolding hstep_def orphaned_def h_def
      by (auto simp: Let_def set_pc_def emit_def panic_def write_up_def close_sock_def
            list_all_update nth_append opener_def
          split: option.splits io.splits if_splits)
  next
    case (H_Dial x3)
    then show ?thesis
      using assms u ne nop unfolding hstep_def orphaned_def h_def
      by (auto simp: Let_def set_pc_def emit_def panic_def write_up_def close_sock_def
            list_all_update nth_append opener_def
          split: option.splits io.splits if_splits)
  next
    case H_DialFailed
    then show ?thesis
      using assms u ne nop unfolding hstep_def orphaned_def h_def
      by (auto simp: Let_def set_pc_def emit_def panic_def write_up_def close_sock_def
            list_all_update nth_append opener_def
          split: option.splits io.splits if_splits)
  next
    case (H_Establish x51 x52)
    then show ?thesis
      using assms u ne nop unfolding hstep_def orphaned_def h_def
      by (auto simp: Let_def set_pc_def emit_def panic_def write_up_def close_sock_def
            list_all_update nth_append opener_def
          split: option.splits io.splits if_splits)
  next
    case (H_Connect x6)
    then show ?thesis
      using assms u ne nop unfolding hstep_def orphaned_def h_def
      by (auto simp: Let_def set_pc_def emit_def panic_def write_up_def close_sock_def
            list_all_update nth_append opener_def
          split: option.splits io.splits if_splits)
  next
    case (H_First x7)
    then show ?thesis
      using assms u ne nop unfolding hstep_def orphaned_def h_def
      by (auto simp: Let_def set_pc_def emit_def panic_def write_up_def close_sock_def
            list_all_update nth_append opener_def
          split: option.splits io.splits if_splits)
  next
    case (H_Read x8)
    then show ?thesis
      using assms u ne nop unfolding hstep_def orphaned_def h_def
      by (auto simp: Let_def set_pc_def emit_def panic_def write_up_def close_sock_def
            list_all_update nth_append opener_def
          split: option.splits io.splits if_splits)
  next
    case (H_ReadFailed x9)
    then show ?thesis
      using assms u ne nop unfolding hstep_def orphaned_def h_def
      by (auto simp: Let_def set_pc_def emit_def panic_def write_up_def close_sock_def
            list_all_update nth_append opener_def
          split: option.splits io.splits if_splits)
  next
    case (H_Reply x101 x102)
    then show ?thesis
      using assms u ne nop unfolding hstep_def orphaned_def h_def
      by (auto simp: Let_def set_pc_def emit_def panic_def write_up_def close_sock_def
            list_all_update nth_append opener_def
          split: option.splits io.splits if_splits)
  next
    case (H_Wait x11)
    then show ?thesis
      using assms u ne nop unfolding hstep_def orphaned_def h_def
      by (auto simp: Let_def set_pc_def emit_def panic_def write_up_def close_sock_def
            list_all_update nth_append opener_def
          split: option.splits io.splits if_splits)
  next
    case (H_Forward x12)
    then show ?thesis
      using assms u ne nop unfolding hstep_def orphaned_def h_def
      by (auto simp: Let_def set_pc_def emit_def panic_def write_up_def close_sock_def
            list_all_update nth_append opener_def
          split: option.splits io.splits if_splits)
  next
    case H_Refresh
    then show ?thesis
      using assms u ne nop unfolding hstep_def orphaned_def h_def
      by (auto simp: Let_def set_pc_def emit_def panic_def write_up_def close_sock_def
            list_all_update nth_append available_refresh opener_def
          split: option.splits io.splits if_splits)
  next
    case H_Done
    then show ?thesis
      using assms u ne nop unfolding hstep_def orphaned_def h_def
      by (auto simp: Let_def set_pc_def emit_def panic_def write_up_def close_sock_def
            list_all_update nth_append opener_def
          split: option.splits io.splits if_splits)
  qed
qed

lemma step_orphaned:
  assumes "orphaned c s" "t < length (handlers s)" "pc (handlers s ! t) = H_Wait c"
    and "step a s = Some s'"
  shows "orphaned c s' \<and> t < length (handlers s') \<and> pc (handlers s' ! t) = H_Wait c"
proof (cases a)
  case (Tick d)
  then show ?thesis using assms by (auto simp: step_def orphaned_def split: if_splits)
next
  case (Recv m)
  then show ?thesis using assms
    by (auto simp: step_def recv_def orphaned_def opener_def nth_append
        split: if_splits option.splits)
next
  case (Hstep u r)
  then have "hstep r u s = Some s'" using assms(4) by (simp add: step_def split: if_splits)
  from hstep_orphaned [OF assms(1-3) this] show ?thesis .
next
  case Jan
  then have "jstep s = Some s'" using assms(4) by (simp add: step_def split: if_splits)
  from jstep_frame [OF this] show ?thesis using assms by (simp add: orphaned_def)
next
  case Stop
  then show ?thesis using assms by (auto simp: step_def orphaned_def split: if_splits)
qed

lemma run_orphaned:
  "orphaned c s \<Longrightarrow> t < length (handlers s) \<Longrightarrow> pc (handlers s ! t) = H_Wait c \<Longrightarrow>
   run as s = Some s' \<Longrightarrow>
   orphaned c s' \<and> t < length (handlers s') \<and> pc (handlers s' ! t) = H_Wait c"
proof (induction as arbitrary: s)
  case Nil
  then show ?case by simp
next
  case (Cons a as)
  from Cons.prems(4) obtain s1 where s1: "step a s = Some s1" "run as s1 = Some s'"
    by (auto split: option.splits)
  from step_orphaned [OF Cons.prems(1-3) s1(1)] Cons.IH [OF _ _ _ s1(2)]
  show ?case by blast
qed

text \<open>
  C5. The claim is that a handler waiting at the gate is released also when the creator's
  dial fails. Lines 131--135 delete the entry and return without closing \<open>available\<close>,
  and no other goroutine holds the creator's role for that \<open>connection\<close>: once the gate
  of \<open>c\<close> is orphaned, a handler that waits at it waits after every schedule whatsoever:
  it stands at line 171, the gate is shut, and its step is not enabled. The schedule
  \<open>race_fail\<close> leads to such a state.
\<close>

theorem waiter_blocked_forever:
  assumes "orphaned c s" "t < length (handlers s)" "pc (handlers s ! t) = H_Wait c"
    and "run as s = Some s'"
  shows "pc (handlers s' ! t) = H_Wait c \<and> \<not> available (conns s' ! c)
         \<and> step (Hstep t r) s' = None"
proof -
  from run_orphaned [OF assms]
  have o: "orphaned c s'" "t < length (handlers s')" "pc (handlers s' ! t) = H_Wait c"
    by simp_all
  then show ?thesis by (simp add: step_def hstep_def orphaned_def)
qed

theorem waiter_blocked_forever_witness:
  "run race_fail (boot ''127.0.0.1:6000'') = Some sW
   \<and> map pc (handlers sW) = [H_Done, H_Wait 0] \<and> clients sW = []
   \<and> events sW = [EDial alice True None]
   \<and> orphaned 0 sW
   \<and> run retry sW = Some (after retry sW)
   \<and> pc (handlers (after retry sW) ! 1) = H_Wait 0
   \<and> \<not> available (conns (after retry sW) ! 0)
   \<and> step (Hstep 1 IoErr) (after retry sW) = None"
proof -
  have h: "orphaned 0 sW" "1 < length (handlers sW)" "pc (handlers sW ! 1) = H_Wait 0"
    "run retry sW = Some (after retry sW)"
    by code_simp+
  have v: "run race_fail (boot ''127.0.0.1:6000'') = Some sW"
    "map pc (handlers sW) = [H_Done, H_Wait 0]" "clients sW = []"
    "events sW = [EDial alice True None]"
    by code_simp+
  from waiter_blocked_forever [OF h, of IoErr] h v show ?thesis by simp
qed

subsection \<open>Eviction and the relay loop\<close>

text \<open>
  C6. The claim is that the disconnect hook is called once for an evicted session. The
  janitor closes the session's socket and calls the hook (lines 98 and 103); the read of
  the session's relay loop then fails on the closed socket, and the loop calls the hook as
  well (line 156). In the schedule \<open>evict_then_relay\<close> the hook is called twice for the
  one session of the client.
\<close>

theorem relay_fires_hook_again:
  "map_option events (run evict_then_relay (boot ''127.0.0.1:6000''))
     = Some [EDial alice True (Some 1), EGateOpen 0, EConnect alice, EUpWrite 1 [1],
             ESleep 10000000000, ESockClose 1, EDisconnect alice, EDisconnect alice]"
  by code_simp

end
